theory Spec2Isabelle
  imports Main "HOL-Library.Word" "HOL-Library.Char_ord" "HOL-Library.List_Lexorder"
begin

section \<open>Schema model (pkg/model)\<close>

text \<open>
  The dynamic value behind \<open>Default *any\<close>: the Go value stored in the interface.
  JSON decoding produces \<open>string\<close>, \<open>float64\<close>, \<open>bool\<close> or composite values;
  a caller building a \<open>model.Message\<close> in Go can also store an \<open>int\<close>.
\<close>

datatype go_any =
    AnyString string
  | AnyInt int
  | AnyFloat64 "64 word"
  | AnyBool bool
  | AnyOther

text \<open>\<open>model.MessageField\<close>; the struct is recursive through \<open>Fields\<close>.\<close>

datatype MessageField = MessageField
  (mf_Name: string)
  (mf_Type: string)
  (mf_Versions: string)
  (mf_About: string)
  (mf_Default: "go_any option")
  (mf_Ignorable: "bool option")
  (mf_Fields: "MessageField list")

record CommonStruct =
  cs_Name :: string
  cs_Versions :: string
  cs_Fields :: "MessageField list"

record Message =
  MessageType :: string
  msg_Name :: string
  ValidVersions :: string
  FlexibleVersions :: string
  msg_Fields :: "MessageField list"
  CommonStructs :: "CommonStruct list"

section \<open>Failures\<close>

text \<open>
  A run of the generator ends in one of three ways: it returns normally, it returns an
  \<open>error\<close> built by \<open>fmt.Errorf\<close>, or it panics at run time.
\<close>

datatype panic =
    IndexOutOfRange
  | SliceBoundsOutOfRange
  | IndentLevelNegative

datatype gen_error =
    UnexpectedStringDefault go_any
  | UnexpectedIntDefault go_any
  | UnrecognizedFieldType string
  | ProblemAddingCommonStruct gen_error
  | ProblemAddingInlineStruct gen_error

datatype failure = Panic panic | Err gen_error

section \<open>fmt.Sprintf on the verbs the generator uses\<close>

datatype fmt_arg = ArgString string | ArgInt int

definition digit_char :: "nat \<Rightarrow> char" where
  "digit_char d = char_of (48 + d)"

fun show_nat :: "nat \<Rightarrow> string" where
  "show_nat n = (if n < 10 then [digit_char n] else show_nat (n div 10) @ [digit_char (n mod 10)])"

definition show_int :: "int \<Rightarrow> string" where
  "show_int i = (if i < 0 then CHR ''-'' # show_nat (nat (- i)) else show_nat (nat i))"

fun fmt_typed :: "fmt_arg \<Rightarrow> string" where
  "fmt_typed (ArgString s) = ''string='' @ s"
| "fmt_typed (ArgInt i) = ''int='' @ show_int i"

text \<open>One verb applied to one operand; a verb of the wrong kind prints Go's \<open>%!verb(type=value)\<close>.\<close>

fun fmt_verb :: "char \<Rightarrow> fmt_arg \<Rightarrow> string" where
  "fmt_verb v (ArgString s) =
     (if v = CHR ''s'' \<or> v = CHR ''v'' then s else ''%!'' @ [v] @ ''(string='' @ s @ '')'')"
| "fmt_verb v (ArgInt i) =
     (if v = CHR ''d'' \<or> v = CHR ''v'' then show_int i else ''%!'' @ [v] @ ''(int='' @ show_int i @ '')'')"

fun fmt_extra_list :: "fmt_arg list \<Rightarrow> string" where
  "fmt_extra_list [] = ''''"
| "fmt_extra_list [a] = fmt_typed a"
| "fmt_extra_list (a # b # as) = fmt_typed a @ '', '' @ fmt_extra_list (b # as)"

definition fmt_extra :: "fmt_arg list \<Rightarrow> string" where
  "fmt_extra as = (if as = [] then '''' else ''%!(EXTRA '' @ fmt_extra_list as @ '')'')"

fun Sprintf :: "string \<Rightarrow> fmt_arg list \<Rightarrow> string" where
  "Sprintf [] as = fmt_extra as"
| "Sprintf [c] as = (if c = CHR ''%'' then ''%!(NOVERB)'' else [c]) @ fmt_extra as"
| "Sprintf (c # v # rest) as =
     (if c \<noteq> CHR ''%'' then c # Sprintf (v # rest) as
      else if v = CHR ''%'' then CHR ''%'' # Sprintf rest as
      else (case as of
              [] \<Rightarrow> ''%!'' @ [v] @ ''(MISSING)'' @ Sprintf rest []
            | a # as' \<Rightarrow> fmt_verb v a @ Sprintf rest as'))"

section \<open>util.CodeBuffer\<close>

record codeBuffer =
  lines :: "string list"
  indentLevel :: int
  indent :: string

definition NewCodeBuffer :: codeBuffer where
  "NewCodeBuffer = \<lparr>lines = [], indentLevel = 0, indent = ''    ''\<rparr>"

definition indentSpaces :: "codeBuffer \<Rightarrow> string" where
  "indentSpaces cb = concat (replicate (nat (indentLevel cb)) (indent cb))"

definition IncrementIndent :: "codeBuffer \<Rightarrow> codeBuffer" where
  "IncrementIndent cb = cb\<lparr>indentLevel := indentLevel cb + 1\<rparr>"

definition DecrementIndent :: "codeBuffer \<Rightarrow> failure + codeBuffer" where
  "DecrementIndent cb =
     (if indentLevel cb - 1 < 0 then Inl (Panic IndentLevelNegative)
      else Inr (cb\<lparr>indentLevel := indentLevel cb - 1\<rparr>))"

definition AddLine :: "string \<Rightarrow> fmt_arg list \<Rightarrow> codeBuffer \<Rightarrow> codeBuffer" where
  "AddLine format a cb = cb\<lparr>lines := lines cb @ [Sprintf (indentSpaces cb @ format) a]\<rparr>"

section \<open>The regular expressions of the generator\<close>

text \<open>\<open>\d\<close> in Go's regexp syntax is the ASCII class \<open>[0-9]\<close>.\<close>

definition is_digit :: "char \<Rightarrow> bool" where
  "is_digit c = (48 \<le> (of_char c :: nat) \<and> (of_char c :: nat) \<le> 57)"

text \<open>
  \<open>FindStringSubmatch\<close> returns \<open>nil\<close> (here \<open>[]\<close>) when there is no match, and
  otherwise the whole match followed by one entry per capture group. The three version
  patterns are unanchored, so the leftmost match is searched from every start position;
  \<open>\d+\<close> is greedy, and a shorter run of digits can never be followed by \<open>-\<close> or
  \<open>+\<close>, so the maximal run decides the match at a position.
\<close>

definition versionRangeRegexp_at :: "string \<Rightarrow> string list" where
  "versionRangeRegexp_at s =
     (let lo = takeWhile is_digit s in
      if lo = [] then []
      else (case dropWhile is_digit s of
              [] \<Rightarrow> []
            | c # r \<Rightarrow>
                (let hi = takeWhile is_digit r in
                 if c = CHR ''-'' \<and> hi \<noteq> [] then [lo @ ''-'' @ hi, lo, hi] else [])))"

fun versionRangeRegexp :: "string \<Rightarrow> string list" where
  "versionRangeRegexp [] = []"
| "versionRangeRegexp (c # s) =
     (case versionRangeRegexp_at (c # s) of [] \<Rightarrow> versionRangeRegexp s | m # ms \<Rightarrow> m # ms)"

definition versionMinRegexp_at :: "string \<Rightarrow> string list" where
  "versionMinRegexp_at s =
     (let lo = takeWhile is_digit s in
      if lo = [] then []
      else (case dropWhile is_digit s of
              [] \<Rightarrow> []
            | c # r \<Rightarrow> if c = CHR ''+'' then [lo @ ''+'', lo] else []))"

fun versionMinRegexp :: "string \<Rightarrow> string list" where
  "versionMinRegexp [] = []"
| "versionMinRegexp (c # s) =
     (case versionMinRegexp_at (c # s) of [] \<Rightarrow> versionMinRegexp s | m # ms \<Rightarrow> m # ms)"

fun versionRegexp :: "string \<Rightarrow> string list" where
  "versionRegexp [] = []"
| "versionRegexp (c # s) =
     (if is_digit c then [takeWhile is_digit (c # s), takeWhile is_digit (c # s)]
      else versionRegexp s)"

text \<open>
  \<open>arrayRegex = ^(\[])?(.+)$\<close>. The dot does not match a newline and \<open>$\<close> is the end of
  the text, so the pattern matches exactly the non-empty strings without a newline.
  The optional group is tried first; when nothing is left for \<open>.+\<close> after \<open>[]\<close> the
  group is given up, stays empty, and \<open>.+\<close> takes the whole string.
\<close>

definition arrayRegex :: "string \<Rightarrow> string list" where
  "arrayRegex s =
     (if s = [] \<or> CHR 0x0A \<in> set s then []
      else if take 2 s = ''[]'' \<and> drop 2 s \<noteq> [] then [s, ''[]'', drop 2 s]
      else [s, '''', s])"

section \<open>The generator (pkg/generate)\<close>

text \<open>Statements of the generator: they change the code buffer or fail.\<close>

type_synonym stmt = "codeBuffer \<Rightarrow> failure + codeBuffer"

definition skip :: stmt where
  "skip cb = Inr cb"

fun block :: "stmt list \<Rightarrow> stmt" where
  "block [] cb = Inr cb"
| "block (s # ss) cb = (case s cb of Inl e \<Rightarrow> Inl e | Inr cb' \<Rightarrow> block ss cb')"

definition inc :: stmt where
  "inc cb = Inr (IncrementIndent cb)"

definition dec :: stmt where
  "dec cb = DecrementIndent cb"

text \<open>Arguments of a call are evaluated left to right; the first panic wins.\<close>

fun eval_args :: "(failure + fmt_arg) list \<Rightarrow> failure + fmt_arg list" where
  "eval_args [] = Inr []"
| "eval_args (a # as) =
     (case a of
        Inl e \<Rightarrow> Inl e
      | Inr v \<Rightarrow> (case eval_args as of Inl e \<Rightarrow> Inl e | Inr vs \<Rightarrow> Inr (v # vs)))"

definition line :: "string \<Rightarrow> (failure + fmt_arg) list \<Rightarrow> stmt" where
  "line format a cb =
     (case eval_args a of Inl e \<Rightarrow> Inl e | Inr vs \<Rightarrow> Inr (AddLine format vs cb))"

definition forEach :: "('a \<Rightarrow> stmt) \<Rightarrow> 'a list \<Rightarrow> stmt" where
  "forEach body xs = block (map body xs)"

definition fail_with :: "gen_error \<Rightarrow> stmt" where
  "fail_with e cb = Inl (Err e)"

definition wrap_error :: "(gen_error \<Rightarrow> gen_error) \<Rightarrow> stmt \<Rightarrow> stmt" where
  "wrap_error w s cb =
     (case s cb of
        Inl (Err e) \<Rightarrow> Inl (Err (w e))
      | Inl (Panic p) \<Rightarrow> Inl (Panic p)
      | Inr cb' \<Rightarrow> Inr cb')"

text \<open>
  \<open>strings.ToUpper\<close> applied to the one-byte string \<open>s[0:1]\<close>: an ASCII lower-case
  letter is shifted to upper case, any other ASCII byte is kept, and a byte of 0x80 or
  more is not valid UTF-8 on its own and comes back as the replacement character U+FFFD.
\<close>

definition strings_ToUpper1 :: "char \<Rightarrow> string" where
  "strings_ToUpper1 c =
     (let n = (of_char c :: nat) in
      if 97 \<le> n \<and> n \<le> 122 then [char_of (n - 32)]
      else if n < 128 then [c]
      else [CHR 0xEF, CHR 0xBF, CHR 0xBD])"

definition capitalize :: "string \<Rightarrow> failure + string" where
  "capitalize s =
     (case s of
        [] \<Rightarrow> Inl (Panic SliceBoundsOutOfRange)
      | c # rest \<Rightarrow> Inr (strings_ToUpper1 c @ rest))"

definition deconstructFieldType :: "string \<Rightarrow> failure + (bool \<times> string)" where
  "deconstructFieldType fieldType =
     (let m = arrayRegex fieldType in
      if length m \<le> 2 then Inl (Panic IndexOutOfRange)
      else Inr (m ! 1 = ''[]'', m ! 2))"

definition addVersionIfClause :: "string \<Rightarrow> codeBuffer \<Rightarrow> codeBuffer \<times> bool" where
  "addVersionIfClause versions cb =
     (let m = versionRangeRegexp versions in
      if length m = 2 then
        (AddLine ''if version >= %d || version <= %d'' [ArgString (m ! 0), ArgString (m ! 1)] cb, True)
      else
        (let m = versionMinRegexp versions in
         if length m = 1 then (AddLine ''if version >= %d'' [ArgString (m ! 0)] cb, True)
         else
           (let m = versionRegexp versions in
            if length m = 1 then (AddLine ''if version == %d'' [ArgString (m ! 0)] cb, True)
            else (cb, False))))"


text \<open>Evaluate an expression that may panic, then continue with its value.\<close>

definition eval_then :: "(failure + 'a) \<Rightarrow> ('a \<Rightarrow> stmt) \<Rightarrow> stmt" where
  "eval_then x k cb = (case x of Inl e \<Rightarrow> Inl e | Inr v \<Rightarrow> k v cb)"

definition arg_str :: "string \<Rightarrow> failure + fmt_arg" where
  "arg_str s = Inr (ArgString s)"

definition arg_int :: "int \<Rightarrow> failure + fmt_arg" where
  "arg_int i = Inr (ArgInt i)"

definition arg_cap :: "string \<Rightarrow> failure + fmt_arg" where
  "arg_cap s = (case capitalize s of Inl e \<Rightarrow> Inl e | Inr t \<Rightarrow> Inr (ArgString t))"

definition addAllocateCommonStruct :: "string \<Rightarrow> stmt" where
  \<open>addAllocateCommonStruct fieldType =
     eval_then (deconstructFieldType fieldType) (\<lambda>(u, ft).
     eval_then (capitalize ft) (\<lambda>cft.
       (let constructName = Sprintf ''New%s'' [ArgString cft] in
        block [
          line ''v, err := %s(data)'' [arg_str constructName],
          line ''if err != nil {'' [],
          inc,
          line ''return res, fmt.Errorf("problem building %s: %%w", err)'' [arg_cap ft],
          dec,
          line ''}'' []
        ])))\<close>

definition addAllocateInlineStruct :: "string \<Rightarrow> string \<Rightarrow> stmt" where
  \<open>addAllocateInlineStruct name fieldType =
     eval_then (deconstructFieldType fieldType) (\<lambda>(u, ft).
     eval_then (capitalize ft) (\<lambda>cft.
       (let constructName = Sprintf ''New%s%s'' [ArgString name, ArgString cft] in
        block [
          line ''v, err := %s(data)'' [arg_str constructName],
          line ''if err != nil {'' [],
          inc,
          line ''return res, fmt.Errorf("problem building %s%s: %%w", err)''
            [arg_str name, arg_cap ft],
          dec,
          line ''}'' []
        ])))\<close>

definition addReadString :: "string \<Rightarrow> bool \<Rightarrow> stmt" where
  \<open>addReadString fieldName appendToArray =
     block [
       line ''{'' [],
       inc,
       line ''stringLen := binary.BigEndian.Uint16(data)'' [],
       line ''if stringLen < 0 {'' [],
       inc,
       line ''return res, fmt.Errorf("non-nullable field %s was serialized as null")''
         [arg_str fieldName],
       dec,
       line ''} else if stringLen > 0x7fff {'' [],
       inc,
       line ''return res, fmt.Errorf("string field %s had invalid length %%d", stringLen)''
         [arg_str fieldName],
       dec,
       line ''} else {'' [],
       inc,
       (if appendToArray
        then line ''res.%s = append(res.%s, string(data[0:stringLen]))''
               [arg_cap fieldName, arg_cap fieldName]
        else line ''res.%s = string(data[0:stringLen])'' [arg_cap fieldName]),
       line ''data = data[stringLen:]'' [],
       dec,
       line ''}'' [],
       dec,
       line ''}'' []
     ]\<close>

definition addReadBytes :: "string \<Rightarrow> bool \<Rightarrow> stmt" where
  \<open>addReadBytes fieldName appendToArray =
     block [
       line ''{'' [],
       inc,
       line ''bytesLen, err := binary.ReadUvarint(bytes.NewReader(data))'' [],
       line ''if err != nil {'' [],
       inc,
       line ''return res, fmt.Errorf("problem reading uvarint: %%w", err)'' [],
       dec,
       line ''}'' [],
       line ''if bytesLen < 0 {'' [],
       inc,
       line ''return res, fmt.Errorf("non-nullable field group was serialized as null")'' [],
       dec,
       line ''}'' [],
       (if appendToArray
        then line ''res.%s = append(res.%s, data[0:bytesLen])''
               [arg_cap fieldName, arg_cap fieldName]
        else line ''res.%s = data[0:bytesLen]'' [arg_cap fieldName]),
       line ''data = data[bytesLen:]'' [],
       dec,
       line ''}'' []
     ]\<close>

text \<open>The \<open>switch fieldType\<close> inside the array loop of \<open>addReadField\<close>.\<close>

definition addReadField_element :: "string \<Rightarrow> MessageField \<Rightarrow> string \<Rightarrow> stmt" where
  \<open>addReadField_element name field fieldType =
     (if fieldType = ''int8'' then
        block [
          line ''res.%s = append(res.%s, int8(data[0]))''
            [arg_cap (mf_Name field), arg_cap (mf_Name field)],
          line ''data = data[1:]'' []]
      else if fieldType = ''int16'' then
        line ''res.%s = append(res.%s, int16(binary.BigEndian.Uint16(data)))''
          [arg_cap (mf_Name field), arg_cap (mf_Name field)]
      else if fieldType = ''int32'' then
        line ''res.%s = append(res.%s, int32(binary.BigEndian.Uint32(data)))''
          [arg_cap (mf_Name field), arg_cap (mf_Name field)]
      else if fieldType = ''int64'' then
        line ''res.%s = append(res.%s, int32(binary.BigEndian.Uint64(data)))''
          [arg_cap (mf_Name field), arg_cap (mf_Name field)]
      else if fieldType = ''string'' then
        addReadString (mf_Name field) True
      else if fieldType = ''uuid'' then
        line ''res.%s = append(res.%s, binary.BigEndian.Uint16(data))''
          [arg_cap (mf_Name field), arg_cap (mf_Name field)]
      else if fieldType = ''bytes'' then
        addReadBytes (mf_Name field) True
      else
        block [
          line ''{'' [],
          inc,
          (if length (mf_Fields field) > 0
           then addAllocateInlineStruct name (mf_Type field)
           else addAllocateCommonStruct (mf_Type field)),
          line ''res.%s = append(res.%s, v)''
            [arg_cap (mf_Name field), arg_cap (mf_Name field)],
          dec,
          line ''}'' []])\<close>

text \<open>The \<open>switch fieldType\<close> of the non-array branch of \<open>addReadField\<close>.\<close>

definition addReadField_scalar :: "string \<Rightarrow> MessageField \<Rightarrow> string \<Rightarrow> stmt" where
  \<open>addReadField_scalar name field fieldType =
     (if fieldType = ''int8'' then
        block [
          line ''res.%s = int8(data[0])'' [arg_cap (mf_Name field)],
          line ''data = data[1:]'' []]
      else if fieldType = ''int16'' then
        line ''res.%s = int16(binary.BigEndian.Uint16(data))'' [arg_cap (mf_Name field)]
      else if fieldType = ''int32'' then
        line ''res.%s = int32(binary.BigEndian.Uint32(data))'' [arg_cap (mf_Name field)]
      else if fieldType = ''int64'' then
        line ''res.%s = int64(binary.BigEndian.Uint64(data))'' [arg_cap (mf_Name field)]
      else if fieldType = ''string'' then
        addReadString (mf_Name field) False
      else if fieldType = ''uuid'' then
        line ''res.%s = binary.BigEndian.Uint16(data)'' [arg_cap (mf_Name field)]
      else if fieldType = ''bytes'' then
        addReadBytes (mf_Name field) False
      else
        block [
          line ''{'' [],
          inc,
          (if length (mf_Fields field) > 0
           then addAllocateInlineStruct name (mf_Type field)
           else addAllocateCommonStruct (mf_Type field)),
          line ''res.%s = v'' [arg_cap (mf_Name field)],
          dec,
          line ''}'' []])\<close>

text \<open>The array branch of \<open>addReadField\<close>: the count prefix and the loop around the element.\<close>

definition addReadField_array :: "string \<Rightarrow> MessageField \<Rightarrow> string \<Rightarrow> stmt" where
  \<open>addReadField_array name field fieldType =
     block [
       line ''{'' [],
       inc,
       line ''arrLen, err := binary.ReadUvarint(bytes.NewReader(data))'' [],
       line ''if err != nil {'' [],
       inc,
       line ''return res, fmt.Errorf("problem reading uvarint: %%w", err)'' [],
       dec,
       line ''}'' [],
       line ''arrLen--'' [],
       line ''for i := uint64(0); i < arrLen; i++ {'' [],
       inc,
       addReadField_element name field fieldType,
       dec,
       line ''}'' [],
       dec,
       line ''}'' []
     ]\<close>

text \<open>The \<open>switch field.Type\<close> that writes the default of a version-gated field.\<close>

definition addReadField_default :: "MessageField \<Rightarrow> go_any \<Rightarrow> stmt" where
  "addReadField_default field d =
     (if mf_Type field = ''string'' then
        (case d of
           AnyString defaultString \<Rightarrow>
             line ''res.%s = %s'' [arg_cap (mf_Name field), arg_str defaultString]
         | _ \<Rightarrow> fail_with (UnexpectedStringDefault d))
      else if mf_Type field = ''int32'' \<or> mf_Type field = ''int64'' then
        (case d of
           AnyInt defaultInt \<Rightarrow>
             line ''res.%s = %d'' [arg_cap (mf_Name field), arg_int defaultInt]
         | _ \<Rightarrow> fail_with (UnexpectedIntDefault d))
      else fail_with (UnrecognizedFieldType (mf_Type field)))"

text \<open>The tail of \<open>addReadField\<close>, run when a version clause was opened.\<close>

definition addReadField_close :: "MessageField \<Rightarrow> stmt" where
  "addReadField_close field =
     block [
       dec,
       (case mf_Default field of
          None \<Rightarrow> skip
        | Some d \<Rightarrow>
            block [
              line ''} else {'' [],
              inc,
              addReadField_default field d,
              dec]),
       line ''}'' []]"

definition addReadField :: "string \<Rightarrow> MessageField \<Rightarrow> stmt" where
  "addReadField name field cb =
     (let (cb1, versions) = addVersionIfClause (mf_Versions field) cb in
      block [
        (if versions then inc else skip),
        eval_then (deconstructFieldType (mf_Type field)) (\<lambda>(isArray, fieldType).
          if isArray then addReadField_array name field fieldType
          else addReadField_scalar name field fieldType),
        (if versions then addReadField_close field else skip)
      ] cb1)"

fun collectInlineStructs :: "MessageField list \<Rightarrow> MessageField list" where
  "collectInlineStructs [] = []"
| "collectInlineStructs (MessageField n t v a d i sub # rest) =
     (if length sub > 0
      then MessageField n t v a d i sub # collectInlineStructs sub
      else [])
     @ collectInlineStructs rest"

text \<open>One iteration of the loop of \<open>addStructFields\<close>.\<close>

definition addStructFields_field :: "string \<Rightarrow> MessageField \<Rightarrow> stmt" where
  "addStructFields_field name field =
     (let fieldType =
            (if mf_Type field = ''uuid'' then ''uint16''
             else if mf_Type field = ''bytes'' then ''[]byte''
             else mf_Type field)
      in if length (mf_Fields field) > 0 then
           eval_then (deconstructFieldType fieldType) (\<lambda>(isArray, ft).
             if isArray
             then line ''%s []%s%s'' [arg_cap (mf_Name field), arg_str name, arg_str ft]
             else line ''%s %s%s'' [arg_cap (mf_Name field), arg_str name, arg_str fieldType])
         else line ''%s %s'' [arg_cap (mf_Name field), arg_str fieldType])"

definition addStructFields :: "string \<Rightarrow> MessageField list \<Rightarrow> stmt" where
  "addStructFields name fs = forEach (addStructFields_field name) fs"

definition addCommonStruct :: "string \<Rightarrow> CommonStruct \<Rightarrow> stmt" where
  "addCommonStruct name cs cb =
     (let (cb1, versions) = addVersionIfClause (cs_Versions cs) cb in
      block [
        (if versions then inc else skip),
        line ''type %s struct {'' [arg_str (cs_Name cs)],
        inc,
        addStructFields name (cs_Fields cs),
        dec,
        line ''}'' [],
        line ''func New%s(data []byte) (%s, error) {'' [arg_cap (cs_Name cs), arg_cap (cs_Name cs)],
        inc,
        line ''var res %s'' [arg_cap (cs_Name cs)],
        forEach (addReadField name) (cs_Fields cs),
        line ''return res, nil'' [],
        dec,
        line ''}'' [],
        (if versions then block [dec, line ''}'' []] else skip)
      ] cb1)"

definition addInlineStruct :: "string \<Rightarrow> MessageField \<Rightarrow> stmt" where
  "addInlineStruct name field cb =
     (let (cb1, versions) = addVersionIfClause (mf_Versions field) cb in
      block [
        (if versions then inc else skip),
        eval_then (deconstructFieldType (mf_Type field)) (\<lambda>(u, fieldType).
          block [
            line ''type %s%s struct {'' [arg_str name, arg_str fieldType],
            inc,
            addStructFields name (mf_Fields field),
            dec,
            line ''}'' [],
            line ''func New%s%s(data []byte) (%s%s, error) {''
              [arg_str name, arg_cap fieldType, arg_str name, arg_cap fieldType],
            inc,
            line ''var res %s%s'' [arg_str name, arg_cap fieldType],
            forEach (addReadField name) (mf_Fields field),
            line ''return res, nil'' [],
            dec,
            line ''}'' []
          ]),
        (if versions then block [dec, line ''}'' []] else skip)
      ] cb1)"

text \<open>
  \<open>collectImports\<close> keeps a \<open>map[string]bool\<close> with the three keys \<open>bytes\<close>,
  \<open>encoding/binary\<close> and \<open>fmt\<close>; assignments overwrite the value of a key. Go walks
  a map in an unspecified order; the keys are distinct and \<open>sort.Strings\<close> orders the
  collected ones, so the result does not depend on that order.
\<close>

type_synonym dependsOn = "(string \<times> bool) list"

fun set_dep :: "string \<Rightarrow> bool \<Rightarrow> dependsOn \<Rightarrow> dependsOn" where
  "set_dep k v [] = [(k, v)]"
| "set_dep k v ((k', v') # m) = (if k = k' then (k, v) # m else (k', v') # set_dep k v m)"

definition collectImports_field :: "MessageField \<Rightarrow> dependsOn \<Rightarrow> failure + dependsOn" where
  "collectImports_field field dependsOn =
     (case deconstructFieldType (mf_Type field) of
        Inl e \<Rightarrow> Inl e
      | Inr (isArray, fieldType) \<Rightarrow>
          (let d1 = (if isArray then set_dep ''fmt'' True (set_dep ''bytes'' True dependsOn)
                     else dependsOn)
           in Inr (if fieldType = ''bytes'' then set_dep ''fmt'' True (set_dep ''bytes'' True d1)
                   else if fieldType = ''string'' then set_dep ''fmt'' True d1
                   else if fieldType \<in> {''int8'', ''int16'', ''int32'', ''int64'', ''uuid''} then d1
                   else set_dep ''fmt'' True d1)))"

fun collectImports_loop :: "MessageField list \<Rightarrow> dependsOn \<Rightarrow> failure + dependsOn" where
  "collectImports_loop [] dependsOn = Inr dependsOn"
| "collectImports_loop (field # rest) dependsOn =
     (case collectImports_field field dependsOn of
        Inl e \<Rightarrow> Inl e
      | Inr d \<Rightarrow> collectImports_loop rest d)"

definition collectImports :: "Message \<Rightarrow> failure + string list" where
  "collectImports spec =
     (let dependsOn = [(''bytes'', False), (''encoding/binary'', True), (''fmt'', False)];
          all_fields = msg_Fields spec @ concat (map cs_Fields (CommonStructs spec))
      in case collectImports_loop all_fields dependsOn of
           Inl e \<Rightarrow> Inl e
         | Inr d \<Rightarrow> Inr (sort (map fst (filter snd d))))"

text \<open>The statements of \<open>generateFile\<close>; the function returns the file name after them.\<close>

definition generateFile_body :: "string \<Rightarrow> Message \<Rightarrow> stmt" where
  \<open>generateFile_body packageName spec =
     block [
       line ''package %s'' [arg_str packageName],
       line ''import ('' [],
       inc,
       eval_then (collectImports spec) (\<lambda>deps.
         forEach (\<lambda>dep. line ''"%s"'' [arg_str dep]) deps),
       dec,
       line '')'' [],
       line ''type %s struct {'' [arg_str (msg_Name spec)],
       inc,
       addStructFields (msg_Name spec) (msg_Fields spec),
       dec,
       line ''}'' [],
       forEach (\<lambda>cs. wrap_error ProblemAddingCommonStruct (addCommonStruct (msg_Name spec) cs))
         (CommonStructs spec),
       forEach (\<lambda>inlineStruct.
                  wrap_error ProblemAddingInlineStruct (addInlineStruct (msg_Name spec) inlineStruct))
         (collectInlineStructs (msg_Fields spec)),
       line ''func Read%s(data []byte, version int) (%s, error) {''
         [arg_str (msg_Name spec), arg_str (msg_Name spec)],
       inc,
       line ''var res %s'' [arg_str (msg_Name spec)],
       forEach (addReadField (msg_Name spec)) (msg_Fields spec),
       line ''return res, nil'' [],
       dec,
       line ''}'' []
     ]\<close>

definition generateFile :: "string \<Rightarrow> Message \<Rightarrow> codeBuffer \<Rightarrow> failure + (string \<times> codeBuffer)" where
  "generateFile packageName spec cb =
     (case generateFile_body packageName spec cb of
        Inl e \<Rightarrow> Inl e
      | Inr cb' \<Rightarrow> Inr (msg_Name spec @ ''.go'', cb'))"

section \<open>Notions used in the statements\<close>

text \<open>The fixed-width integer kinds of the schema notation.\<close>

definition fixed_width_integer_kinds :: "string set" where
  "fixed_width_integer_kinds = {''int8'', ''int16'', ''int32'', ''int64''}"

text \<open>A message whose own field and whose common record's field are fixed-width integers.\<close>

definition only_ints :: Message where
  "only_ints = \<lparr>MessageType = ''request'', msg_Name = ''Foo'', ValidVersions = ''0'',
     FlexibleVersions = ''none'',
     msg_Fields = [MessageField ''x'' ''int32'' ''0+'' '''' None None []],
     CommonStructs = [\<lparr>cs_Name = ''Bar'', cs_Versions = ''0+'',
        cs_Fields = [MessageField ''y'' ''int64'' ''0+'' '''' None None []]\<rparr>]\<rparr>"

text \<open>The fields of a field list at any nesting depth, parents before children.\<close>

fun all_fields :: "MessageField list \<Rightarrow> MessageField list" where
  "all_fields [] = []"
| "all_fields (MessageField n t v a d i sub # rest) =
     MessageField n t v a d i sub # all_fields sub @ all_fields rest"

text \<open>The fields the generator works on: those of the message at any depth, which
  \<open>addStructFields\<close>, \<open>addInlineStruct\<close> and \<open>addReadField\<close> reach through
  \<open>collectInlineStructs\<close>, and the direct fields of the common records.\<close>

definition generated_fields :: "Message \<Rightarrow> MessageField set" where
  "generated_fields spec =
     set (all_fields (msg_Fields spec)) \<union> (\<Union>cs \<in> set (CommonStructs spec). set (cs_Fields cs))"

text \<open>A statement that never returns an \<open>error\<close>, whatever the buffer.\<close>

definition never_errs :: "stmt \<Rightarrow> bool" where
  "never_errs s = (\<forall>cb e. s cb \<noteq> Inl (Err e))"

text \<open>A statement that returns normally on some buffer.\<close>

definition succeeds :: "stmt \<Rightarrow> bool" where
  "succeeds s = (\<exists>cb cb'. s cb = Inr cb')"

text \<open>An argument whose evaluation returns a value or panics.\<close>

definition plain_arg :: "(failure + fmt_arg) \<Rightarrow> bool" where
  "plain_arg a = (\<forall>e. a \<noteq> Inl (Err e))"

text \<open>The base names that have a case of their own in the switches of \<open>addReadField\<close>.\<close>

definition primitive_kinds :: "string set" where
  "primitive_kinds = {''int8'', ''int16'', ''int32'', ''int64'', ''string'', ''uuid'', ''bytes''}"

text \<open>What \<open>capitalize\<close> returns when it does not panic.\<close>

definition capitalized :: "string \<Rightarrow> string" where
  "capitalized s = (case s of [] \<Rightarrow> [] | c # rest \<Rightarrow> strings_ToUpper1 c @ rest)"

text \<open>The line that calls the constructor of a referenced record, as
  \<open>addAllocateCommonStruct\<close> and \<open>addAllocateInlineStruct\<close> format it.\<close>

definition constructor_call :: "string \<Rightarrow> MessageField \<Rightarrow> string \<Rightarrow> string" where
  "constructor_call name field base =
     ''v, err := New'' @ (if length (mf_Fields field) > 0 then name else []) @ capitalized base
       @ ''(data)''"

text \<open>
  The emitted line \<open>stringLen := binary.BigEndian.Uint16(data)\<close> declares an unsigned
  16-bit value, and the emitted chain
  \<open>if stringLen < 0 {...} else if stringLen > 0x7fff {...} else {...}\<close> compares it as such.
\<close>

datatype string_branch = NullBranch | InvalidLengthBranch | PayloadBranch

definition emitted_string_branch :: "16 word \<Rightarrow> string_branch" where
  "emitted_string_branch stringLen =
     (if stringLen < 0 then NullBranch
      else if stringLen > 0x7fff then InvalidLengthBranch
      else PayloadBranch)"

text \<open>
  \<open>arrLen\<close> is the \<open>uint64\<close> returned by \<open>binary.ReadUvarint\<close>; the emitted
  \<open>arrLen--\<close> is an unsigned decrement, and the emitted loop
  \<open>for i := uint64(0); i < arrLen; i++\<close> runs while \<open>i\<close> is below the result.
\<close>

definition emitted_array_loop_bound :: "64 word \<Rightarrow> 64 word" where
  "emitted_array_loop_bound arrLen = arrLen - 1"

text \<open>A message whose common record has a field with a nested field of empty name and type.\<close>

definition hidden_field_msg :: Message where
  "hidden_field_msg = \<lparr>MessageType = ''request'', msg_Name = ''Foo'', ValidVersions = ''0'',
     FlexibleVersions = ''none'',
     msg_Fields = [MessageField ''x'' ''int32'' ''0+'' '''' None None []],
     CommonStructs = [\<lparr>cs_Name = ''Bar'', cs_Versions = ''0+'',
        cs_Fields = [MessageField ''g'' ''Sub'' ''0+'' '''' None None
                       [MessageField '''' '''' ''0+'' '''' None None []]]\<rparr>]\<rparr>"

text \<open>A message whose only field has an empty name.\<close>

definition empty_name_msg :: Message where
  "empty_name_msg = \<lparr>MessageType = ''request'', msg_Name = ''Foo'', ValidVersions = ''0'',
     FlexibleVersions = ''none'',
     msg_Fields = [MessageField '''' ''int32'' ''0+'' '''' None None []],
     CommonStructs = []\<rparr>"

text \<open>A message whose field names a type that is neither primitive nor declared.\<close>

definition unknown_type_msg :: Message where
  "unknown_type_msg = \<lparr>MessageType = ''request'', msg_Name = ''Foo'', ValidVersions = ''0'',
     FlexibleVersions = ''none'',
     msg_Fields = [MessageField ''f'' ''nosuch'' ''0+'' '''' None None []],
     CommonStructs = []\<rparr>"

text \<open>A message with two fixed-width integer fields in a row.\<close>

definition two_ints_msg :: Message where
  "two_ints_msg = \<lparr>MessageType = ''request'', msg_Name = ''Foo'', ValidVersions = ''0'',
     FlexibleVersions = ''none'',
     msg_Fields = [MessageField ''x'' ''int32'' ''0+'' '''' None None [],
                   MessageField ''y'' ''int64'' ''0+'' '''' None None []],
     CommonStructs = []\<rparr>"

text \<open>A message with a \<open>uuid\<close> field and an array of \<open>uuid\<close>.\<close>

definition uuid_msg :: Message where
  "uuid_msg = \<lparr>MessageType = ''request'', msg_Name = ''Foo'', ValidVersions = ''0'',
     FlexibleVersions = ''none'',
     msg_Fields = [MessageField ''id'' ''uuid'' ''0+'' '''' None None [],
                   MessageField ''ids'' ''[]uuid'' ''0+'' '''' None None []],
     CommonStructs = []\<rparr>"

text \<open>A message with an inline record whose base kind starts with a lower-case letter.\<close>

definition inline_msg :: Message where
  "inline_msg = \<lparr>MessageType = ''request'', msg_Name = ''Foo'', ValidVersions = ''0'',
     FlexibleVersions = ''none'',
     msg_Fields = [MessageField ''items'' ''[]item'' ''0+'' '''' None None
                     [MessageField ''a'' ''int8'' ''0+'' '''' None None []]],
     CommonStructs = []\<rparr>"

section \<open>Version clauses\<close>

text \<open>
  A match of a pattern with \<open>n\<close> capture groups has \<open>n + 1\<close> entries, so none of the
  length tests of \<open>addVersionIfClause\<close> can succeed.
\<close>

lemma length_versionRangeRegexp_at: "length (versionRangeRegexp_at s) = 0 \<or> length (versionRangeRegexp_at s) = 3"
  by (simp add: versionRangeRegexp_at_def Let_def split: list.split)

lemma length_versionRangeRegexp: "length (versionRangeRegexp s) = 0 \<or> length (versionRangeRegexp s) = 3"
proof (induction s)
  case Nil
  then show ?case by simp
next
  case (Cons c s)
  show ?case
  proof (cases "versionRangeRegexp_at (c # s)")
    case Nil
    with Cons show ?thesis by simp
  next
    case (Cons m ms)
    with length_versionRangeRegexp_at [of "c # s"] show ?thesis by simp
  qed
qed

lemma length_versionMinRegexp_at: "length (versionMinRegexp_at s) = 0 \<or> length (versionMinRegexp_at s) = 2"
  by (simp add: versionMinRegexp_at_def Let_def split: list.split)

lemma length_versionMinRegexp: "length (versionMinRegexp s) = 0 \<or> length (versionMinRegexp s) = 2"
proof (induction s)
  case Nil
  then show ?case by simp
next
  case (Cons c s)
  show ?case
  proof (cases "versionMinRegexp_at (c # s)")
    case Nil
    with Cons show ?thesis by simp
  next
    case (Cons m ms)
    with length_versionMinRegexp_at [of "c # s"] show ?thesis by simp
  qed
qed

lemma length_versionRegexp: "length (versionRegexp s) = 0 \<or> length (versionRegexp s) = 2"
  by (induction s) auto

lemma addVersionIfClause_no_guard: "addVersionIfClause versions cb = (cb, False)"
  using length_versionRangeRegexp [of versions] length_versionMinRegexp [of versions]
    length_versionRegexp [of versions]
  by (auto simp: addVersionIfClause_def Let_def)


text \<open>
  Claim C1. The claim: a versions string of the form \<open>lo-hi\<close>, \<open>lo+\<close> or \<open>n\<close> makes
  \<open>addVersionIfClause\<close> emit the guard of that predicate. The code at the three shapes:
  each pattern matches and returns its groups, and yet no line is added to the buffer and
  the function answers \<open>false\<close>, so the field is decoded unconditionally.
\<close>

theorem addVersionIfClause_emits_no_guard_at_patterns:
  "versionRangeRegexp ''0-3'' = [''0-3'', ''0'', ''3'']
   \<and> addVersionIfClause ''0-3'' NewCodeBuffer = (NewCodeBuffer, False)
   \<and> versionMinRegexp ''2+'' = [''2+'', ''2'']
   \<and> addVersionIfClause ''2+'' NewCodeBuffer = (NewCodeBuffer, False)
   \<and> versionRegexp ''1'' = [''1'', ''1'']
   \<and> addVersionIfClause ''1'' NewCodeBuffer = (NewCodeBuffer, False)"
  by (simp add: versionRangeRegexp_at_def versionMinRegexp_at_def is_digit_def Let_def
      addVersionIfClause_def)

section \<open>Dependency collector\<close>

lemma deconstructFieldType_fixed:
  "t \<in> fixed_width_integer_kinds \<Longrightarrow> deconstructFieldType t = Inr (False, t)"
  by (auto simp: fixed_width_integer_kinds_def deconstructFieldType_def arrayRegex_def)

lemma collectImports_field_fixed:
  "mf_Type f \<in> fixed_width_integer_kinds \<Longrightarrow> collectImports_field f d = Inr d"
  by (auto simp: collectImports_field_def deconstructFieldType_fixed fixed_width_integer_kinds_def)

lemma collectImports_loop_fixed:
  "\<forall>f \<in> set fs. mf_Type f \<in> fixed_width_integer_kinds \<Longrightarrow> collectImports_loop fs d = Inr d"
  by (induction fs) (simp_all add: collectImports_field_fixed)

lemma map_fst_set_dep: "k \<in> fst ` set m \<Longrightarrow> map fst (set_dep k v m) = map fst m"
proof (induction m)
  case Nil
  then show ?case by simp
next
  case (Cons p m)
  obtain k' v' where p: "p = (k', v')" by (cases p)
  show ?case
  proof (cases "k = k'")
    case True
    then show ?thesis by (simp add: p)
  next
    case False
    with Cons.prems have "k \<in> fst ` set m" by (auto simp: p)
    with Cons.IH False show ?thesis by (simp add: p)
  qed
qed

lemma collectImports_field_keys:
  assumes "collectImports_field f d = Inr d'" and "map fst d = [''bytes'', ''encoding/binary'', ''fmt'']"
  shows "map fst d' = [''bytes'', ''encoding/binary'', ''fmt'']"
proof -
  have k: "\<And>m k v. map fst m = [''bytes'', ''encoding/binary'', ''fmt''] \<Longrightarrow> k \<in> {''bytes'', ''fmt''}
      \<Longrightarrow> map fst (set_dep k v m) = [''bytes'', ''encoding/binary'', ''fmt'']"
  proof -
    fix m :: dependsOn and k v
    assume a: "map fst m = [''bytes'', ''encoding/binary'', ''fmt'']" and b: "k \<in> {''bytes'', ''fmt''}"
    have "set (map fst m) = {''bytes'', ''encoding/binary'', ''fmt''}" by (simp add: a)
    then have "k \<in> fst ` set m" using b by auto
    then show "map fst (set_dep k v m) = [''bytes'', ''encoding/binary'', ''fmt'']"
      by (simp add: map_fst_set_dep a)
  qed
  from assms show ?thesis
    by (auto simp: collectImports_field_def Let_def k split: sum.splits if_splits)
qed

lemma collectImports_loop_keys:
  "collectImports_loop fs d = Inr d' \<Longrightarrow> map fst d = [''bytes'', ''encoding/binary'', ''fmt'']
    \<Longrightarrow> map fst d' = [''bytes'', ''encoding/binary'', ''fmt'']"
proof (induction fs arbitrary: d)
  case Nil
  then show ?case by simp
next
  case (Cons f fs)
  then show ?case
    by (auto split: sum.splits dest: collectImports_field_keys)
qed

lemma distinct_selected_keys: "distinct (map fst d) \<Longrightarrow> distinct (map fst (filter snd d))"
  by (induction d) auto


text \<open>
  Claim C8. When every field of the message and of its common records has a fixed-width
  integer kind, \<open>collectImports\<close> returns exactly \<open>encoding/binary\<close>; and whatever list
  \<open>collectImports\<close> returns has no duplicates and is sorted.
\<close>

theorem collectImports_fixed_width_only:
  "((\<forall>f \<in> set (msg_Fields spec) \<union> (\<Union>cs \<in> set (CommonStructs spec). set (cs_Fields cs)).
        mf_Type f \<in> fixed_width_integer_kinds)
      \<longrightarrow> collectImports spec = Inr [''encoding/binary''])
   \<and> (\<forall>deps. collectImports spec = Inr deps \<longrightarrow> distinct deps \<and> sorted deps)"
proof (intro conjI impI allI)
  assume a: "\<forall>f \<in> set (msg_Fields spec) \<union> (\<Union>cs \<in> set (CommonStructs spec). set (cs_Fields cs)).
        mf_Type f \<in> fixed_width_integer_kinds"
  then have "\<forall>f \<in> set (msg_Fields spec @ concat (map cs_Fields (CommonStructs spec))).
      mf_Type f \<in> fixed_width_integer_kinds"
    by auto
  then show "collectImports spec = Inr [''encoding/binary'']"
    by (simp add: collectImports_def collectImports_loop_fixed del: set_append set_concat)
next
  fix deps
  assume r: "collectImports spec = Inr deps"
  then obtain d where
    l: "collectImports_loop (msg_Fields spec @ concat (map cs_Fields (CommonStructs spec)))
          [(''bytes'', False), (''encoding/binary'', True), (''fmt'', False)] = Inr d"
    and deps: "deps = sort (map fst (filter snd d))"
    by (auto simp: collectImports_def split: sum.splits)
  from collectImports_loop_keys [OF l] have "map fst d = [''bytes'', ''encoding/binary'', ''fmt'']"
    by simp
  then have "distinct (map fst d)" by simp
  then have "distinct (map fst (filter snd d))" by (rule distinct_selected_keys)
  then show "distinct deps" by (simp add: deps)
  show "sorted deps" by (simp add: deps)
qed


theorem collectImports_fixed_width_only_witness:
  "collectImports only_ints = Inr [''encoding/binary'']
   \<and> distinct [''encoding/binary''] \<and> sorted [''encoding/binary'']"
proof -
  have h: "\<forall>f \<in> set (msg_Fields only_ints) \<union> (\<Union>cs \<in> set (CommonStructs only_ints). set (cs_Fields cs)).
        mf_Type f \<in> fixed_width_integer_kinds"
    by (simp add: only_ints_def fixed_width_integer_kinds_def)
  from collectImports_fixed_width_only [of only_ints] h
  have "collectImports only_ints = Inr [''encoding/binary'']" by blast
  with collectImports_fixed_width_only [of only_ints] show ?thesis by blast
qed


section \<open>Failures of the generator\<close>

text \<open>Without a version guard the three emitters are plain sequences of statements.\<close>

lemma addReadField_unguarded:
  "addReadField name field =
     block [
       skip,
       eval_then (deconstructFieldType (mf_Type field)) (\<lambda>(isArray, fieldType).
         if isArray then addReadField_array name field fieldType
         else addReadField_scalar name field fieldType),
       skip]"
  by (rule ext) (simp add: addReadField_def addVersionIfClause_no_guard del: block.simps)

lemma addCommonStruct_unguarded:
  "addCommonStruct name cs =
     block [
        skip,
        line ''type %s struct {'' [arg_str (cs_Name cs)],
        inc,
        addStructFields name (cs_Fields cs),
        dec,
        line ''}'' [],
        line ''func New%s(data []byte) (%s, error) {'' [arg_cap (cs_Name cs), arg_cap (cs_Name cs)],
        inc,
        line ''var res %s'' [arg_cap (cs_Name cs)],
        forEach (addReadField name) (cs_Fields cs),
        line ''return res, nil'' [],
        dec,
        line ''}'' [],
        skip]"
  by (rule ext) (simp add: addCommonStruct_def addVersionIfClause_no_guard del: block.simps)

lemma addInlineStruct_unguarded:
  "addInlineStruct name field =
      block [
        skip,
        eval_then (deconstructFieldType (mf_Type field)) (\<lambda>(u, fieldType).
          block [
            line ''type %s%s struct {'' [arg_str name, arg_str fieldType],
            inc,
            addStructFields name (mf_Fields field),
            dec,
            line ''}'' [],
            line ''func New%s%s(data []byte) (%s%s, error) {''
              [arg_str name, arg_cap fieldType, arg_str name, arg_cap fieldType],
            inc,
            line ''var res %s%s'' [arg_str name, arg_cap fieldType],
            forEach (addReadField name) (mf_Fields field),
            line ''return res, nil'' [],
            dec,
            line ''}'' []
          ]),
        skip]"
  by (rule ext) (simp add: addInlineStruct_def addVersionIfClause_no_guard del: block.simps)

subsection \<open>No statement of the generator returns an error\<close>

lemma block_no_err: "list_all never_errs ss \<Longrightarrow> block ss cb \<noteq> Inl (Err e)"
proof (induction ss arbitrary: cb)
  case Nil
  then show ?case by simp
next
  case (Cons s ss)
  then show ?case by (auto simp: never_errs_def split: sum.splits)
qed

lemma never_errs_block [simp]: "list_all never_errs ss \<Longrightarrow> never_errs (block ss)"
  by (simp add: never_errs_def [of "block ss"] block_no_err)

lemma eval_args_no_err: "list_all plain_arg as \<Longrightarrow> eval_args as \<noteq> Inl (Err e)"
  by (induction as) (auto simp: plain_arg_def split: sum.splits)

lemma plain_arg_simps [simp]: "plain_arg (arg_cap s)" "plain_arg (arg_str s)" "plain_arg (arg_int i)"
  by (auto simp: plain_arg_def arg_cap_def arg_str_def arg_int_def capitalize_def split: list.splits)

lemma never_errs_line [simp]: "list_all plain_arg as \<Longrightarrow> never_errs (line f as)"
  using eval_args_no_err [of as] by (auto simp: never_errs_def line_def split: sum.splits)

lemma never_errs_basic [simp]: "never_errs inc" "never_errs dec" "never_errs skip"
  by (auto simp: never_errs_def inc_def dec_def skip_def DecrementIndent_def)

lemma never_errs_forEach: "(\<And>x. never_errs (f x)) \<Longrightarrow> never_errs (forEach f xs)"
  by (simp add: forEach_def list_all_iff del: block.simps)

lemma never_errs_wrap_error: "never_errs s \<Longrightarrow> never_errs (wrap_error w s)"
  by (auto simp: never_errs_def wrap_error_def split: sum.splits failure.splits)

lemma never_errs_eval_then:
  "(\<And>e. x \<noteq> Inl (Err e)) \<Longrightarrow> (\<And>v. never_errs (k v)) \<Longrightarrow> never_errs (eval_then x k)"
  by (auto simp: never_errs_def eval_then_def split: sum.splits)

lemma never_errs_case_prod: "(\<And>a b. never_errs (f a b)) \<Longrightarrow> never_errs (case_prod f v)"
  by (cases v) simp

lemma deconstructFieldType_no_err: "deconstructFieldType t \<noteq> Inl (Err e)"
  by (simp add: deconstructFieldType_def Let_def)

lemma capitalize_no_err: "capitalize t \<noteq> Inl (Err e)"
  by (simp add: capitalize_def split: list.splits)

lemma never_errs_addAllocateCommonStruct [simp]: "never_errs (addAllocateCommonStruct t)"
  unfolding addAllocateCommonStruct_def
  by (intro never_errs_eval_then never_errs_case_prod deconstructFieldType_no_err
        capitalize_no_err)
     (simp add: Let_def del: block.simps)

lemma never_errs_addAllocateInlineStruct [simp]: "never_errs (addAllocateInlineStruct n t)"
  unfolding addAllocateInlineStruct_def
  by (intro never_errs_eval_then never_errs_case_prod deconstructFieldType_no_err
        capitalize_no_err)
     (simp add: Let_def del: block.simps)

lemma never_errs_addReadString [simp]: "never_errs (addReadString n b)"
  by (simp add: addReadString_def del: block.simps)

lemma never_errs_addReadBytes [simp]: "never_errs (addReadBytes n b)"
  by (simp add: addReadBytes_def del: block.simps)

lemma never_errs_addReadField_element [simp]: "never_errs (addReadField_element n f t)"
  by (simp add: addReadField_element_def del: block.simps)

lemma never_errs_addReadField_scalar [simp]: "never_errs (addReadField_scalar n f t)"
  by (simp add: addReadField_scalar_def del: block.simps)

lemma never_errs_addReadField_array [simp]: "never_errs (addReadField_array n f t)"
  by (simp add: addReadField_array_def del: block.simps)

lemma never_errs_addReadField [simp]: "never_errs (addReadField n f)"
proof -
  have "never_errs (eval_then (deconstructFieldType (mf_Type f)) (\<lambda>(isArray, fieldType).
         if isArray then addReadField_array n f fieldType
         else addReadField_scalar n f fieldType))"
    by (intro never_errs_eval_then never_errs_case_prod deconstructFieldType_no_err) simp
  then show ?thesis
    by (simp add: addReadField_unguarded del: block.simps)
qed

lemma never_errs_addStructFields_field [simp]: "never_errs (addStructFields_field n f)"
proof -
  have "never_errs (eval_then (deconstructFieldType t) (\<lambda>(isArray, ft).
             if isArray
             then line ''%s []%s%s'' [arg_cap (mf_Name f), arg_str n, arg_str ft]
             else line ''%s %s%s'' [arg_cap (mf_Name f), arg_str n, arg_str t]))" for t
    by (intro never_errs_eval_then never_errs_case_prod deconstructFieldType_no_err) simp
  then show ?thesis
    by (simp add: addStructFields_field_def Let_def)
qed

lemma never_errs_addStructFields [simp]: "never_errs (addStructFields n fs)"
  by (simp add: addStructFields_def never_errs_forEach)

lemma never_errs_addCommonStruct [simp]: "never_errs (addCommonStruct n cs)"
  by (simp add: addCommonStruct_unguarded never_errs_forEach del: block.simps)

lemma never_errs_addInlineStruct [simp]: "never_errs (addInlineStruct n f)"
proof -
  have "never_errs (eval_then (deconstructFieldType (mf_Type f)) (\<lambda>(u, fieldType).
          block [
            line ''type %s%s struct {'' [arg_str n, arg_str fieldType],
            inc,
            addStructFields n (mf_Fields f),
            dec,
            line ''}'' [],
            line ''func New%s%s(data []byte) (%s%s, error) {''
              [arg_str n, arg_cap fieldType, arg_str n, arg_cap fieldType],
            inc,
            line ''var res %s%s'' [arg_str n, arg_cap fieldType],
            forEach (addReadField n) (mf_Fields f),
            line ''return res, nil'' [],
            dec,
            line ''}'' []
          ]))"
    by (intro never_errs_eval_then never_errs_case_prod deconstructFieldType_no_err)
       (simp add: never_errs_forEach del: block.simps)
  then show ?thesis
    by (simp add: addInlineStruct_unguarded del: block.simps)
qed

lemma collectImports_no_err: "collectImports spec \<noteq> Inl (Err e)"
proof -
  have f: "collectImports_field f d \<noteq> Inl (Err e)" for f d
    using deconstructFieldType_no_err [of "mf_Type f" e]
    by (auto simp: collectImports_field_def Let_def split: sum.splits)
  have "collectImports_loop fs d \<noteq> Inl (Err e)" for fs d
    by (induction fs arbitrary: d) (auto simp: f split: sum.splits)
  then show ?thesis
    by (auto simp: collectImports_def split: sum.splits)
qed

lemma never_errs_generateFile_body: "never_errs (generateFile_body p spec)"
proof -
  have "never_errs (eval_then (collectImports spec) (\<lambda>deps.
         forEach (\<lambda>dep. line [CHR 0x22, CHR ''%'', CHR ''s'', CHR 0x22] [arg_str dep]) deps))"
    by (intro never_errs_eval_then collectImports_no_err never_errs_forEach) simp
  then show ?thesis
    by (simp add: generateFile_body_def never_errs_forEach never_errs_wrap_error del: block.simps)
qed

lemma generateFile_no_err: "generateFile p spec cb \<noteq> Inl (Err e)"
  using never_errs_generateFile_body [of p spec]
  by (auto simp: generateFile_def never_errs_def split: sum.splits)


subsection \<open>What a successful run says about the fields\<close>

lemma block_Inr_member: "block ss cb = Inr cb' \<Longrightarrow> s \<in> set ss \<Longrightarrow> succeeds s"
proof (induction ss arbitrary: cb)
  case Nil
  then show ?case by simp
next
  case (Cons t ss)
  from Cons.prems(1) obtain cb1 where t: "t cb = Inr cb1" and r: "block ss cb1 = Inr cb'"
    by (auto split: sum.splits)
  show ?case
  proof (cases "s = t")
    case True
    with t show ?thesis by (auto simp: succeeds_def)
  next
    case False
    with Cons.prems(2) have "s \<in> set ss" by simp
    with Cons.IH r show ?thesis by blast
  qed
qed

lemma succeeds_block: "succeeds (block ss) \<Longrightarrow> s \<in> set ss \<Longrightarrow> succeeds s"
  by (auto simp: succeeds_def [of "block ss"] dest: block_Inr_member)

lemma succeeds_forEach: "succeeds (forEach f xs) \<Longrightarrow> x \<in> set xs \<Longrightarrow> succeeds (f x)"
  unfolding forEach_def by (erule succeeds_block) simp

lemma succeeds_wrap_error: "succeeds (wrap_error w s) \<Longrightarrow> succeeds s"
proof -
  assume "succeeds (wrap_error w s)"
  then obtain cb cb' where r: "wrap_error w s cb = Inr cb'" by (auto simp: succeeds_def)
  show ?thesis
  proof (cases "s cb")
    case (Inl fl)
    with r show ?thesis by (cases fl) (simp_all add: wrap_error_def)
  next
    case (Inr c)
    then show ?thesis by (auto simp: succeeds_def)
  qed
qed

lemma succeeds_eval_then: "succeeds (eval_then x k) \<Longrightarrow> \<exists>v. x = Inr v \<and> succeeds (k v)"
proof -
  assume "succeeds (eval_then x k)"
  then obtain cb cb' where r: "eval_then x k cb = Inr cb'" by (auto simp: succeeds_def)
  show ?thesis
  proof (cases x)
    case (Inl fl)
    with r show ?thesis by (simp add: eval_then_def)
  next
    case (Inr v)
    with r have "k v cb = Inr cb'" by (simp add: eval_then_def)
    with Inr show ?thesis by (auto simp: succeeds_def)
  qed
qed

lemma eval_args_Inr_member: "eval_args as = Inr vs \<Longrightarrow> a \<in> set as \<Longrightarrow> \<exists>v. a = Inr v"
  by (induction as arbitrary: vs) (auto split: sum.splits)

lemma succeeds_line: "succeeds (line f as) \<Longrightarrow> a \<in> set as \<Longrightarrow> \<exists>v. a = Inr v"
proof -
  assume "succeeds (line f as)" and a: "a \<in> set as"
  then obtain cb cb' where r: "line f as cb = Inr cb'" by (auto simp: succeeds_def)
  show ?thesis
  proof (cases "eval_args as")
    case (Inl fl)
    with r show ?thesis by (simp add: line_def)
  next
    case (Inr vs)
    then show ?thesis using a by (rule eval_args_Inr_member)
  qed
qed

lemma arg_cap_Inr: "arg_cap s = Inr v \<Longrightarrow> s \<noteq> []"
  by (auto simp: arg_cap_def capitalize_def)

lemma succeeds_line_cap: "succeeds (line f as) \<Longrightarrow> arg_cap s \<in> set as \<Longrightarrow> s \<noteq> []"
  by (blast dest: succeeds_line arg_cap_Inr)

lemma deconstructFieldType_Inr: "deconstructFieldType t = Inr v \<Longrightarrow> t \<noteq> []"
  by (auto simp: deconstructFieldType_def arrayRegex_def Let_def split: if_splits)

lemma succeeds_addStructFields_field:
  assumes "succeeds (addStructFields_field n f)"
  shows "mf_Name f \<noteq> []"
proof (cases "length (mf_Fields f) > 0")
  case True
  with assms obtain t where "succeeds (eval_then (deconstructFieldType t) (\<lambda>(isArray, ft).
             if isArray
             then line ''%s []%s%s'' [arg_cap (mf_Name f), arg_str n, arg_str ft]
             else line ''%s %s%s'' [arg_cap (mf_Name f), arg_str n, arg_str t]))"
    by (simp add: addStructFields_field_def Let_def)
  then obtain a ft where
    "succeeds (if a then line ''%s []%s%s'' [arg_cap (mf_Name f), arg_str n, arg_str ft]
               else line ''%s %s%s'' [arg_cap (mf_Name f), arg_str n, arg_str t])"
    by (auto dest!: succeeds_eval_then)
  then show ?thesis
    by (cases a) (auto dest: succeeds_line_cap)
next
  case False
  with assms obtain t where "succeeds (line ''%s %s'' [arg_cap (mf_Name f), arg_str t])"
    by (simp add: addStructFields_field_def Let_def)
  then show ?thesis
    by (rule succeeds_line_cap) simp
qed

lemma succeeds_addStructFields:
  "succeeds (addStructFields n fs) \<Longrightarrow> f \<in> set fs \<Longrightarrow> mf_Name f \<noteq> []"
  unfolding addStructFields_def
  by (blast dest: succeeds_forEach succeeds_addStructFields_field)

lemma succeeds_addReadField: "succeeds (addReadField n f) \<Longrightarrow> mf_Type f \<noteq> []"
proof -
  assume "succeeds (addReadField n f)"
  then have "succeeds (eval_then (deconstructFieldType (mf_Type f)) (\<lambda>(isArray, fieldType).
         if isArray then addReadField_array n f fieldType
         else addReadField_scalar n f fieldType))"
    unfolding addReadField_unguarded by (rule succeeds_block) simp
  then show ?thesis
    by (auto dest!: succeeds_eval_then deconstructFieldType_Inr)
qed

lemma collectImports_loop_Inr:
  "collectImports_loop fs d = Inr d' \<Longrightarrow> f \<in> set fs \<Longrightarrow> mf_Type f \<noteq> []"
proof (induction fs arbitrary: d)
  case Nil
  then show ?case by simp
next
  case (Cons g fs)
  from Cons.prems(1) obtain d1 where g: "collectImports_field g d = Inr d1"
    and r: "collectImports_loop fs d1 = Inr d'"
    by (auto split: sum.splits)
  from g have "mf_Type g \<noteq> []"
    by (auto simp: collectImports_field_def split: sum.splits dest: deconstructFieldType_Inr)
  with Cons.IH [OF r] Cons.prems(2) show ?case by auto
qed

lemma collectImports_Inr:
  "collectImports spec = Inr deps \<Longrightarrow>
   f \<in> set (msg_Fields spec) \<union> (\<Union>cs \<in> set (CommonStructs spec). set (cs_Fields cs)) \<Longrightarrow>
   mf_Type f \<noteq> []"
proof -
  assume r: "collectImports spec = Inr deps"
    and f: "f \<in> set (msg_Fields spec) \<union> (\<Union>cs \<in> set (CommonStructs spec). set (cs_Fields cs))"
  from r obtain d where
    "collectImports_loop (msg_Fields spec @ concat (map cs_Fields (CommonStructs spec)))
       [(''bytes'', False), (''encoding/binary'', True), (''fmt'', False)] = Inr d"
    by (auto simp: collectImports_def split: sum.splits)
  moreover from f have "f \<in> set (msg_Fields spec @ concat (map cs_Fields (CommonStructs spec)))"
    by auto
  ultimately show ?thesis by (rule collectImports_loop_Inr)
qed

lemma all_fields_cases:
  "f \<in> set (all_fields fs) \<Longrightarrow>
   f \<in> set fs \<or> (\<exists>g \<in> set (collectInlineStructs fs). f \<in> set (mf_Fields g))"
proof (induction fs rule: all_fields.induct)
  case 1
  then show ?case by simp
next
  case (2 n t v a d i sub rest)
  from "2.prems" consider "f = MessageField n t v a d i sub" | "f \<in> set (all_fields sub)"
    | "f \<in> set (all_fields rest)"
    by auto
  then show ?case
  proof cases
    case 1
    then show ?thesis by simp
  next
    case 2
    then have ne: "sub \<noteq> []" by auto
    from "2.IH"(1) [OF 2] show ?thesis
      using ne by auto
  next
    case 3
    from "2.IH"(2) [OF 3] show ?thesis by auto
  qed
qed


lemma succeeds_addCommonStruct:
  "succeeds (addCommonStruct n cs) \<Longrightarrow> f \<in> set (cs_Fields cs) \<Longrightarrow> mf_Name f \<noteq> []"
proof -
  assume a: "succeeds (addCommonStruct n cs)" and f: "f \<in> set (cs_Fields cs)"
  from a have "succeeds (addStructFields n (cs_Fields cs))"
    unfolding addCommonStruct_unguarded by (rule succeeds_block) simp
  with f show ?thesis by (blast dest: succeeds_addStructFields)
qed

lemma succeeds_addInlineStruct:
  assumes "succeeds (addInlineStruct n g)" and f: "f \<in> set (mf_Fields g)"
  shows "mf_Name f \<noteq> [] \<and> mf_Type f \<noteq> []"
proof -
  from assms(1) have "succeeds (eval_then (deconstructFieldType (mf_Type g)) (\<lambda>(u, fieldType).
          block [
            line ''type %s%s struct {'' [arg_str n, arg_str fieldType],
            inc,
            addStructFields n (mf_Fields g),
            dec,
            line ''}'' [],
            line ''func New%s%s(data []byte) (%s%s, error) {''
              [arg_str n, arg_cap fieldType, arg_str n, arg_cap fieldType],
            inc,
            line ''var res %s%s'' [arg_str n, arg_cap fieldType],
            forEach (addReadField n) (mf_Fields g),
            line ''return res, nil'' [],
            dec,
            line ''}'' []
          ]))"
    unfolding addInlineStruct_unguarded by (rule succeeds_block) simp
  then obtain u fieldType where b: "succeeds (
          block [
            line ''type %s%s struct {'' [arg_str n, arg_str fieldType],
            inc,
            addStructFields n (mf_Fields g),
            dec,
            line ''}'' [],
            line ''func New%s%s(data []byte) (%s%s, error) {''
              [arg_str n, arg_cap fieldType, arg_str n, arg_cap fieldType],
            inc,
            line ''var res %s%s'' [arg_str n, arg_cap fieldType],
            forEach (addReadField n) (mf_Fields g),
            line ''return res, nil'' [],
            dec,
            line ''}'' []
          ])"
    by (auto dest!: succeeds_eval_then)
  from b have "succeeds (addStructFields n (mf_Fields g))"
    by (rule succeeds_block) simp
  with f have name: "mf_Name f \<noteq> []" by (blast dest: succeeds_addStructFields)
  from b have "succeeds (forEach (addReadField n) (mf_Fields g))"
    by (rule succeeds_block) simp
  with f have "mf_Type f \<noteq> []" by (blast dest: succeeds_forEach succeeds_addReadField)
  with name show ?thesis by simp
qed

lemma generateFile_Inr_fields:
  assumes r: "generateFile p spec cb = Inr res" and f: "f \<in> generated_fields spec"
  shows "mf_Name f \<noteq> [] \<and> mf_Type f \<noteq> []"
proof -
  from r have "\<exists>cb'. generateFile_body p spec cb = Inr cb'"
    by (auto simp: generateFile_def split: sum.splits)
  then have b: "succeeds (generateFile_body p spec)"
    by (auto simp: succeeds_def)
  have "succeeds (eval_then (collectImports spec) (\<lambda>deps.
         forEach (\<lambda>dep. line [CHR 0x22, CHR ''%'', CHR ''s'', CHR 0x22] [arg_str dep]) deps))"
    using b unfolding generateFile_body_def by (rule succeeds_block) simp
  then obtain deps where deps: "collectImports spec = Inr deps"
    by (auto dest!: succeeds_eval_then)
  have top: "succeeds (addStructFields (msg_Name spec) (msg_Fields spec))"
    using b unfolding generateFile_body_def by (rule succeeds_block) simp
  have common: "succeeds (forEach (\<lambda>cs. wrap_error ProblemAddingCommonStruct
        (addCommonStruct (msg_Name spec) cs)) (CommonStructs spec))"
    using b unfolding generateFile_body_def by (rule succeeds_block) simp
  have inline: "succeeds (forEach (\<lambda>inlineStruct. wrap_error ProblemAddingInlineStruct
        (addInlineStruct (msg_Name spec) inlineStruct)) (collectInlineStructs (msg_Fields spec)))"
    using b unfolding generateFile_body_def by (rule succeeds_block) simp
  from f consider
      (top) "f \<in> set (msg_Fields spec)"
    | (common) cs where "cs \<in> set (CommonStructs spec)" "f \<in> set (cs_Fields cs)"
    | (inline) g where "g \<in> set (collectInlineStructs (msg_Fields spec))" "f \<in> set (mf_Fields g)"
    by (auto simp: generated_fields_def dest: all_fields_cases)
  then show ?thesis
  proof cases
    case top
    with deps have "mf_Type f \<noteq> []" by (auto dest: collectImports_Inr)
    moreover from top \<open>succeeds (addStructFields (msg_Name spec) (msg_Fields spec))\<close>
    have "mf_Name f \<noteq> []" by (blast dest: succeeds_addStructFields)
    ultimately show ?thesis by simp
  next
    case common
    with deps have "mf_Type f \<noteq> []" by (auto dest: collectImports_Inr)
    moreover from succeeds_forEach [OF \<open>succeeds (forEach (\<lambda>cs. wrap_error ProblemAddingCommonStruct
        (addCommonStruct (msg_Name spec) cs)) (CommonStructs spec))\<close> common(1)]
    have "succeeds (addCommonStruct (msg_Name spec) cs)" by (rule succeeds_wrap_error)
    from this common(2) have "mf_Name f \<noteq> []" by (rule succeeds_addCommonStruct)
    ultimately show ?thesis by simp
  next
    case inline
    from succeeds_forEach [OF \<open>succeeds (forEach (\<lambda>inlineStruct. wrap_error ProblemAddingInlineStruct
        (addInlineStruct (msg_Name spec) inlineStruct)) (collectInlineStructs (msg_Fields spec)))\<close> inline(1)]
    have "succeeds (addInlineStruct (msg_Name spec) g)" by (rule succeeds_wrap_error)
    from this inline(2) show ?thesis by (rule succeeds_addInlineStruct)
  qed
qed

text \<open>
  Claim C10, as the code has it. The fields the generator works on are the fields of the
  message at any nesting depth and the direct fields of its common records. When one of
  them has an empty name or an empty type string, \<open>generateFile\<close> panics: it neither
  returns an error nor a file.
\<close>

theorem generateFile_panics_on_empty_name_or_type:
  "f \<in> generated_fields spec \<Longrightarrow> mf_Name f = [] \<or> mf_Type f = [] \<Longrightarrow>
   \<exists>p. generateFile packageName spec cb = Inl (Panic p)"
proof -
  assume f: "f \<in> generated_fields spec" and e: "mf_Name f = [] \<or> mf_Type f = []"
  show ?thesis
  proof (cases "generateFile packageName spec cb")
    case (Inl fl)
    then show ?thesis
      using generateFile_no_err [of packageName spec cb] by (cases fl) auto
  next
    case (Inr res)
    from generateFile_Inr_fields [OF Inr f] e show ?thesis by simp
  qed
qed

text \<open>The hypothesis of the C10 theorem at a message whose only field has an empty name.\<close>

theorem generateFile_panics_on_empty_name_or_type_witness:
  "\<exists>p. generateFile ''pkg'' empty_name_msg NewCodeBuffer = Inl (Panic p)"
  using generateFile_panics_on_empty_name_or_type
    [of "MessageField '''' ''int32'' ''0+'' '''' None None []" empty_name_msg "''pkg''" NewCodeBuffer]
  by (simp add: generated_fields_def empty_name_msg_def)

text \<open>
  Claim C10 as stated speaks of every field. A field nested below a field of a common
  record is never visited: with an empty name and an empty type there, \<open>generateFile\<close>
  returns the file.
\<close>

theorem generateFile_skips_nested_common_fields: \<open>
  cs_Fields (hd (CommonStructs hidden_field_msg)) =
    [MessageField ''g'' ''Sub'' ''0+'' '''' None None [MessageField '''' '''' ''0+'' '''' None None []]]
  \<and> generateFile ''pkg'' hidden_field_msg NewCodeBuffer =
  Inr (''Foo.go'', \<lparr>lines = [
    ''package pkg'',
    ''import ('',
    ''    "encoding/binary"'',
    ''    "fmt"'',
    '')'',
    ''type Foo struct {'',
    ''    X int32'',
    ''}'',
    ''type Bar struct {'',
    ''    G FooSub'',
    ''}'',
    ''func NewBar(data []byte) (Bar, error) {'',
    ''    var res Bar'',
    ''    {'',
    ''        v, err := NewFooSub(data)'',
    ''        if err != nil {'',
    ''            return res, fmt.Errorf("problem building FooSub: %w", err)'',
    ''        }'',
    ''        res.G = v'',
    ''    }'',
    ''    return res, nil'',
    ''}'',
    ''func ReadFoo(data []byte, version int) (Foo, error) {'',
    ''    var res Foo'',
    ''    res.X = int32(binary.BigEndian.Uint32(data))'',
    ''    return res, nil'',
    ''}''], indentLevel = 0, indent = ''    ''\<rparr>)\<close>
  by code_simp

section \<open>Record references\<close>

lemma Sprintf_plain_char: "c \<noteq> CHR ''%'' \<Longrightarrow> Sprintf (c # f) a = c # Sprintf f a"
  by (cases f) (simp_all)

lemma Sprintf_prefix: "CHR ''%'' \<notin> set p \<Longrightarrow> Sprintf (p @ f) a = p @ Sprintf f a"
  by (induction p) (auto simp: Sprintf_plain_char simp del: Sprintf.simps)

lemma indentSpaces_no_percent: "CHR ''%'' \<notin> set (indent cb) \<Longrightarrow> CHR ''%'' \<notin> set (indentSpaces cb)"
  by (auto simp: indentSpaces_def)

lemma AddLine_indent:
  "CHR ''%'' \<notin> set (indent cb) \<Longrightarrow>
   AddLine f a cb = cb\<lparr>lines := lines cb @ [indentSpaces cb @ Sprintf f a]\<rparr>"
  by (simp add: AddLine_def Sprintf_prefix indentSpaces_no_percent)

lemma line_run:
  "CHR ''%'' \<notin> set (indent cb) \<Longrightarrow> eval_args as = Inr vs \<Longrightarrow>
   line f as cb = Inr (cb\<lparr>lines := lines cb @ [indentSpaces cb @ Sprintf f vs]\<rparr>)"
  by (simp add: line_def AddLine_indent)

lemma capitalize_nonempty: "s \<noteq> [] \<Longrightarrow> capitalize s = Inr (capitalized s)"
  by (cases s) (simp_all add: capitalize_def capitalized_def)

lemma arg_cap_nonempty: "s \<noteq> [] \<Longrightarrow> arg_cap s = Inr (ArgString (capitalized s))"
  by (simp add: arg_cap_def capitalize_nonempty)

lemma deconstructFieldType_base: "deconstructFieldType t = Inr (a, base) \<Longrightarrow> base \<noteq> []"
  by (auto simp: deconstructFieldType_def arrayRegex_def Let_def split: if_splits)

lemmas run_simps = line_run inc_def dec_def skip_def IncrementIndent_def DecrementIndent_def
  eval_then_def arg_str_def arg_cap_nonempty capitalize_nonempty fmt_extra_def indentSpaces_def

lemma addAllocateCommonStruct_run:
  assumes "0 \<le> indentLevel cb" "CHR ''%'' \<notin> set (indent cb)"
    "deconstructFieldType t = Inr (a, base)"
  shows \<open>addAllocateCommonStruct t cb =
    Inr (cb\<lparr>lines := lines cb @
      [indentSpaces cb @ ''v, err := New'' @ capitalized base @ ''(data)'',
       indentSpaces cb @ ''if err != nil {'',
       indentSpaces (cb\<lparr>indentLevel := indentLevel cb + 1\<rparr>)
         @ ''return res, fmt.Errorf("problem building '' @ capitalized base @ '': %w", err)'',
       indentSpaces cb @ ''}'']\<rparr>)\<close>
  using assms deconstructFieldType_base [OF assms(3)]
  by (simp add: addAllocateCommonStruct_def run_simps)


lemma addAllocateInlineStruct_run:
  assumes "0 \<le> indentLevel cb" "CHR ''%'' \<notin> set (indent cb)"
    "deconstructFieldType t = Inr (a, base)"
  shows \<open>addAllocateInlineStruct n t cb =
    Inr (cb\<lparr>lines := lines cb @
      [indentSpaces cb @ ''v, err := New'' @ n @ capitalized base @ ''(data)'',
       indentSpaces cb @ ''if err != nil {'',
       indentSpaces (cb\<lparr>indentLevel := indentLevel cb + 1\<rparr>)
         @ ''return res, fmt.Errorf("problem building '' @ n @ capitalized base @ '': %w", err)'',
       indentSpaces cb @ ''}'']\<rparr>)\<close>
  using assms deconstructFieldType_base [OF assms(3)]
  by (simp add: addAllocateInlineStruct_def run_simps)

lemma addReadField_scalar_reference_run:
  assumes "0 \<le> indentLevel cb" "CHR ''%'' \<notin> set (indent cb)" "mf_Name f \<noteq> []"
    "deconstructFieldType (mf_Type f) = Inr (a, base)" "base \<notin> primitive_kinds"
  shows \<open>addReadField_scalar n f base cb =
    Inr (cb\<lparr>lines := lines cb @
      [indentSpaces cb @ ''{'',
       indentSpaces (cb\<lparr>indentLevel := indentLevel cb + 1\<rparr>) @ constructor_call n f base,
       indentSpaces (cb\<lparr>indentLevel := indentLevel cb + 1\<rparr>) @ ''if err != nil {'',
       indentSpaces (cb\<lparr>indentLevel := indentLevel cb + 1 + 1\<rparr>)
         @ ''return res, fmt.Errorf("problem building ''
         @ (if length (mf_Fields f) > 0 then n else []) @ capitalized base @ '': %w", err)'',
       indentSpaces (cb\<lparr>indentLevel := indentLevel cb + 1\<rparr>) @ ''}'',
       indentSpaces (cb\<lparr>indentLevel := indentLevel cb + 1\<rparr>)
         @ ''res.'' @ capitalized (mf_Name f) @ '' = v'',
       indentSpaces cb @ ''}'']\<rparr>)\<close>
proof -
  from assms(5) have np: "base \<noteq> ''int8''" "base \<noteq> ''int16''" "base \<noteq> ''int32''"
    "base \<noteq> ''int64''" "base \<noteq> ''string''" "base \<noteq> ''uuid''" "base \<noteq> ''bytes''"
    by (auto simp: primitive_kinds_def)
  show ?thesis
  proof (cases "length (mf_Fields f) > 0")
    case True
    then show ?thesis
      using assms(1-4) np
      by (simp add: addReadField_scalar_def constructor_call_def addAllocateInlineStruct_run
          run_simps)
  next
    case False
    then show ?thesis
      using assms(1-4) np
      by (simp add: addReadField_scalar_def constructor_call_def addAllocateCommonStruct_run
          run_simps)
  qed
qed


lemma addReadField_element_reference_run:
  assumes "0 \<le> indentLevel cb" "CHR ''%'' \<notin> set (indent cb)" "mf_Name f \<noteq> []"
    "deconstructFieldType (mf_Type f) = Inr (a, base)" "base \<notin> primitive_kinds"
  shows \<open>addReadField_element n f base cb =
    Inr (cb\<lparr>lines := lines cb @
      [indentSpaces cb @ ''{'',
       indentSpaces (cb\<lparr>indentLevel := indentLevel cb + 1\<rparr>) @ constructor_call n f base,
       indentSpaces (cb\<lparr>indentLevel := indentLevel cb + 1\<rparr>) @ ''if err != nil {'',
       indentSpaces (cb\<lparr>indentLevel := indentLevel cb + 1 + 1\<rparr>)
         @ ''return res, fmt.Errorf("problem building ''
         @ (if length (mf_Fields f) > 0 then n else []) @ capitalized base @ '': %w", err)'',
       indentSpaces (cb\<lparr>indentLevel := indentLevel cb + 1\<rparr>) @ ''}'',
       indentSpaces (cb\<lparr>indentLevel := indentLevel cb + 1\<rparr>)
         @ ''res.'' @ capitalized (mf_Name f) @ '' = append(res.'' @ capitalized (mf_Name f)
         @ '', v)'',
       indentSpaces cb @ ''}'']\<rparr>)\<close>
proof -
  from assms(5) have np: "base \<noteq> ''int8''" "base \<noteq> ''int16''" "base \<noteq> ''int32''"
    "base \<noteq> ''int64''" "base \<noteq> ''string''" "base \<noteq> ''uuid''" "base \<noteq> ''bytes''"
    by (auto simp: primitive_kinds_def)
  show ?thesis
  proof (cases "length (mf_Fields f) > 0")
    case True
    then show ?thesis
      using assms(1-4) np
      by (simp add: addReadField_element_def constructor_call_def addAllocateInlineStruct_run
          run_simps)
  next
    case False
    then show ?thesis
      using assms(1-4) np
      by (simp add: addReadField_element_def constructor_call_def addAllocateCommonStruct_run
          run_simps)
  qed
qed

lemma addReadField_array_reference_run:
  assumes "0 \<le> indentLevel cb" "CHR ''%'' \<notin> set (indent cb)" "mf_Name f \<noteq> []"
    "deconstructFieldType (mf_Type f) = Inr (a, base)" "base \<notin> primitive_kinds"
  shows "\<exists>cb'. addReadField_array n f base cb = Inr cb' \<and>
     indentSpaces (cb\<lparr>indentLevel := indentLevel cb + 1 + 1 + 1\<rparr>) @ constructor_call n f base
       \<in> set (lines cb')"
  using assms(1-4)
  by (simp add: addReadField_array_def run_simps
      addReadField_element_reference_run [OF _ _ assms(3,4,5)])

text \<open>
  Claim C6, as the code has it. A base name that is not one of the seven primitive kinds
  is taken for a record reference without any check that such a record is declared:
  for a field with a non-empty name whose type expression resolves to such a base name,
  \<open>addReadField\<close> returns no error and emits the call of the constructor named
  \<open>New\<close> followed by the capitalized base name (with the message name in between when
  the field carries nested fields).
\<close>

theorem addReadField_record_reference:
  assumes "0 \<le> indentLevel cb" and "CHR ''%'' \<notin> set (indent cb)" and "mf_Name f \<noteq> []"
    and "deconstructFieldType (mf_Type f) = Inr (isArray, base)" and "base \<notin> primitive_kinds"
  shows "\<exists>cb' ind. addReadField name f cb = Inr cb'
           \<and> ind @ constructor_call name f base \<in> set (lines cb')"
proof (cases isArray)
  case True
  from addReadField_array_reference_run [OF assms, of name]
  obtain cb' where "addReadField_array name f base cb = Inr cb'"
    and "indentSpaces (cb\<lparr>indentLevel := indentLevel cb + 1 + 1 + 1\<rparr>)
           @ constructor_call name f base \<in> set (lines cb')"
    by blast
  with True assms(4) show ?thesis
    by (auto simp: addReadField_unguarded skip_def eval_then_def)
next
  case False
  have "\<exists>cb'. addReadField_scalar name f base cb = Inr cb' \<and>
     indentSpaces (cb\<lparr>indentLevel := indentLevel cb + 1\<rparr>) @ constructor_call name f base
       \<in> set (lines cb')"
    by (simp add: addReadField_scalar_reference_run [OF assms])
  then obtain cb' where "addReadField_scalar name f base cb = Inr cb'"
    and "indentSpaces (cb\<lparr>indentLevel := indentLevel cb + 1\<rparr>)
           @ constructor_call name f base \<in> set (lines cb')"
    by blast
  with False assms(4) show ?thesis
    by (auto simp: addReadField_unguarded skip_def eval_then_def)
qed

lemma ToUpper1_n: "strings_ToUpper1 CHR ''n'' = ''N''"
  by code_simp

text \<open>The hypotheses of the C6 theorem at the field \<open>f\<close> of type \<open>nosuch\<close>.\<close>

theorem addReadField_record_reference_witness:
  "\<exists>cb' ind. addReadField ''Foo'' (MessageField ''f'' ''nosuch'' ''0+'' '''' None None []) NewCodeBuffer
       = Inr cb'
     \<and> ind @ ''v, err := NewNosuch(data)'' \<in> set (lines cb')"
  using addReadField_record_reference [of NewCodeBuffer
      "MessageField ''f'' ''nosuch'' ''0+'' '''' None None []" False "''nosuch''" "''Foo''"]
  by (simp add: NewCodeBuffer_def deconstructFieldType_def arrayRegex_def primitive_kinds_def
      constructor_call_def capitalized_def ToUpper1_n)

text \<open>
  Claim C6 as stated: a base name that is neither a primitive kind nor a declared record,
  or an empty base name after the array marker, fails with an unrecognized-type error.
  The code at the type \<open>nosuch\<close> in a message without records, and at the type \<open>[]\<close>:
  it returns no error and emits a constructor call.
\<close>

theorem generateFile_accepts_unknown_type: \<open>
  generateFile ''pkg'' unknown_type_msg NewCodeBuffer =
  Inr (''Foo.go'', \<lparr>lines = [
    ''package pkg'',
    ''import ('',
    ''    "encoding/binary"'',
    ''    "fmt"'',
    '')'',
    ''type Foo struct {'',
    ''    F nosuch'',
    ''}'',
    ''func ReadFoo(data []byte, version int) (Foo, error) {'',
    ''    var res Foo'',
    ''    {'',
    ''        v, err := NewNosuch(data)'',
    ''        if err != nil {'',
    ''            return res, fmt.Errorf("problem building Nosuch: %w", err)'',
    ''        }'',
    ''        res.F = v'',
    ''    }'',
    ''    return res, nil'',
    ''}''], indentLevel = 0, indent = ''    ''\<rparr>)
  \<and> addReadField ''Foo'' (MessageField ''f'' ''[]'' ''0+'' '''' None None []) NewCodeBuffer =
  Inr \<lparr>lines = [
    ''{'',
    ''    v, err := New[](data)'',
    ''    if err != nil {'',
    ''        return res, fmt.Errorf("problem building []: %w", err)'',
    ''    }'',
    ''    res.F = v'',
    ''}''], indentLevel = 0, indent = ''    ''\<rparr>\<close>
  by code_simp


section \<open>The emitted decode steps\<close>

text \<open>
  Claim C2. The claim: the decode logic emitted for an array fails with the null-sentinel
  error when the count prefix is 0 and otherwise decodes (prefix - 1) elements. The code
  at the field \<open>xs\<close> of type \<open>[]int32\<close>: the emitted lines decrement the unsigned
  count without testing it, and at the wire value 0 the loop bound wraps to \<open>2^64 - 1\<close>.
\<close>

theorem addReadField_array_has_no_null_check: \<open>
  addReadField ''Foo'' (MessageField ''xs'' ''[]int32'' ''0+'' '''' None None []) NewCodeBuffer =
  Inr \<lparr>lines = [
    ''{'',
    ''    arrLen, err := binary.ReadUvarint(bytes.NewReader(data))'',
    ''    if err != nil {'',
    ''        return res, fmt.Errorf("problem reading uvarint: %w", err)'',
    ''    }'',
    ''    arrLen--'',
    ''    for i := uint64(0); i < arrLen; i++ {'',
    ''        res.Xs = append(res.Xs, int32(binary.BigEndian.Uint32(data)))'',
    ''    }'',
    ''}''], indentLevel = 0, indent = ''    ''\<rparr>
  \<and> emitted_array_loop_bound 0 = 0xFFFFFFFFFFFFFFFF\<close>
proof -
  have \<open>addReadField ''Foo'' (MessageField ''xs'' ''[]int32'' ''0+'' '''' None None []) NewCodeBuffer =
  Inr \<lparr>lines = [
    ''{'',
    ''    arrLen, err := binary.ReadUvarint(bytes.NewReader(data))'',
    ''    if err != nil {'',
    ''        return res, fmt.Errorf("problem reading uvarint: %w", err)'',
    ''    }'',
    ''    arrLen--'',
    ''    for i := uint64(0); i < arrLen; i++ {'',
    ''        res.Xs = append(res.Xs, int32(binary.BigEndian.Uint32(data)))'',
    ''    }'',
    ''}''], indentLevel = 0, indent = ''    ''\<rparr>\<close>
    by code_simp
  moreover have "emitted_array_loop_bound 0 = 0xFFFFFFFFFFFFFFFF"
    by (simp add: emitted_array_loop_bound_def)
  ultimately show ?thesis by simp
qed

text \<open>
  Claim C3. The claim: each non-array decode step advances the read cursor by the width
  of its kind, so consecutive fields are read from consecutive positions. The code at a
  message with an \<open>int32\<close> field followed by an \<open>int64\<close> field: both are read from
  \<open>data\<close> and no emitted line moves \<open>data\<close> between them. Of the fixed-width kinds
  only \<open>int8\<close> gets a line that moves \<open>data\<close>; \<open>int16\<close> gets none.
\<close>

theorem generateFile_fixed_width_reads_do_not_advance: \<open>
  generateFile ''pkg'' two_ints_msg NewCodeBuffer =
  Inr (''Foo.go'', \<lparr>lines = [
    ''package pkg'',
    ''import ('',
    ''    "encoding/binary"'',
    '')'',
    ''type Foo struct {'',
    ''    X int32'',
    ''    Y int64'',
    ''}'',
    ''func ReadFoo(data []byte, version int) (Foo, error) {'',
    ''    var res Foo'',
    ''    res.X = int32(binary.BigEndian.Uint32(data))'',
    ''    res.Y = int64(binary.BigEndian.Uint64(data))'',
    ''    return res, nil'',
    ''}''], indentLevel = 0, indent = ''    ''\<rparr>)
  \<and> addReadField ''Foo'' (MessageField ''b'' ''int8'' ''0+'' '''' None None []) NewCodeBuffer =
  Inr \<lparr>lines = [''res.B = int8(data[0])'', ''data = data[1:]''],
       indentLevel = 0, indent = ''    ''\<rparr>
  \<and> addReadField ''Foo'' (MessageField ''h'' ''int16'' ''0+'' '''' None None []) NewCodeBuffer =
  Inr \<lparr>lines = [''res.H = int16(binary.BigEndian.Uint16(data))''],
       indentLevel = 0, indent = ''    ''\<rparr>\<close>
  by code_simp

text \<open>
  Claim C4. The claim: a string length prefix that is negative as a signed 16-bit value
  reaches the null-sentinel failure. The code at the field \<open>s\<close> of type \<open>string\<close>:
  the emitted test \<open>stringLen < 0\<close> is on an unsigned 16-bit value, so the prefix
  \<open>0xFFFF\<close> (which is -1 when read as signed) takes the invalid-length branch.
\<close>

theorem addReadString_null_branch_is_dead: \<open>
  addReadField ''Foo'' (MessageField ''s'' ''string'' ''0+'' '''' None None []) NewCodeBuffer =
  Inr \<lparr>lines = [
    ''{'',
    ''    stringLen := binary.BigEndian.Uint16(data)'',
    ''    if stringLen < 0 {'',
    ''        return res, fmt.Errorf("non-nullable field s was serialized as null")'',
    ''    } else if stringLen > 0x7fff {'',
    ''        return res, fmt.Errorf("string field s had invalid length %d", stringLen)'',
    ''    } else {'',
    ''        res.S = string(data[0:stringLen])'',
    ''        data = data[stringLen:]'',
    ''    }'',
    ''}''], indentLevel = 0, indent = ''    ''\<rparr>
  \<and> sint (0xFFFF :: 16 word) = - 1
  \<and> emitted_string_branch 0xFFFF = InvalidLengthBranch\<close>
proof -
  have \<open>addReadField ''Foo'' (MessageField ''s'' ''string'' ''0+'' '''' None None []) NewCodeBuffer =
  Inr \<lparr>lines = [
    ''{'',
    ''    stringLen := binary.BigEndian.Uint16(data)'',
    ''    if stringLen < 0 {'',
    ''        return res, fmt.Errorf("non-nullable field s was serialized as null")'',
    ''    } else if stringLen > 0x7fff {'',
    ''        return res, fmt.Errorf("string field s had invalid length %d", stringLen)'',
    ''    } else {'',
    ''        res.S = string(data[0:stringLen])'',
    ''        data = data[stringLen:]'',
    ''    }'',
    ''}''], indentLevel = 0, indent = ''    ''\<rparr>\<close>
    by code_simp
  moreover have "sint (0xFFFF :: 16 word) = - 1" by simp
  moreover have "emitted_string_branch 0xFFFF = InvalidLengthBranch"
    by (simp add: emitted_string_branch_def)
  ultimately show ?thesis by simp
qed

text \<open>
  Claim C5. The claim: a \<open>uuid\<close> is decoded as a 16-byte value and the struct field holds
  16 bytes. The code at a message with a \<open>uuid\<close> field and a \<open>[]uuid\<close> field: the
  struct field is a \<open>uint16\<close> and both decode steps read \<open>binary.BigEndian.Uint16\<close>,
  two bytes.
\<close>

theorem generateFile_uuid_is_two_bytes: \<open>
  generateFile ''pkg'' uuid_msg NewCodeBuffer =
  Inr (''Foo.go'', \<lparr>lines = [
    ''package pkg'',
    ''import ('',
    ''    "bytes"'',
    ''    "encoding/binary"'',
    ''    "fmt"'',
    '')'',
    ''type Foo struct {'',
    ''    Id uint16'',
    ''    Ids []uuid'',
    ''}'',
    ''func ReadFoo(data []byte, version int) (Foo, error) {'',
    ''    var res Foo'',
    ''    res.Id = binary.BigEndian.Uint16(data)'',
    ''    {'',
    ''        arrLen, err := binary.ReadUvarint(bytes.NewReader(data))'',
    ''        if err != nil {'',
    ''            return res, fmt.Errorf("problem reading uvarint: %w", err)'',
    ''        }'',
    ''        arrLen--'',
    ''        for i := uint64(0); i < arrLen; i++ {'',
    ''            res.Ids = append(res.Ids, binary.BigEndian.Uint16(data))'',
    ''        }'',
    ''    }'',
    ''    return res, nil'',
    ''}''], indentLevel = 0, indent = ''    ''\<rparr>)\<close>
  by code_simp

text \<open>
  Claim C7. The claim: the default literal of a version-gated field is validated against
  the kind of the field, a mismatch fails with an error, and the default is assigned in
  the emitted code when the predicate is false. The code at a \<open>string\<close> field with a
  numeric default, an \<open>int32\<close> field with a string default and a \<open>string\<close> field with
  a string default, each with versions \<open>1\<close>: no error, no guard and no assignment of
  the default.
\<close>

theorem addReadField_ignores_default: \<open>
  addReadField ''Foo''
    (MessageField ''y'' ''string'' ''1'' '''' (Some (AnyFloat64 0x4014000000000000)) None [])
    NewCodeBuffer =
  Inr \<lparr>lines = [
    ''{'',
    ''    stringLen := binary.BigEndian.Uint16(data)'',
    ''    if stringLen < 0 {'',
    ''        return res, fmt.Errorf("non-nullable field y was serialized as null")'',
    ''    } else if stringLen > 0x7fff {'',
    ''        return res, fmt.Errorf("string field y had invalid length %d", stringLen)'',
    ''    } else {'',
    ''        res.Y = string(data[0:stringLen])'',
    ''        data = data[stringLen:]'',
    ''    }'',
    ''}''], indentLevel = 0, indent = ''    ''\<rparr>
  \<and> addReadField ''Foo''
    (MessageField ''n'' ''int32'' ''1'' '''' (Some (AnyString ''abc'')) None [])
    NewCodeBuffer =
  Inr \<lparr>lines = [''res.N = int32(binary.BigEndian.Uint32(data))''],
       indentLevel = 0, indent = ''    ''\<rparr>
  \<and> addReadField ''Foo''
    (MessageField ''z'' ''string'' ''1'' '''' (Some (AnyString ''abc'')) None [])
    NewCodeBuffer =
  Inr \<lparr>lines = [
    ''{'',
    ''    stringLen := binary.BigEndian.Uint16(data)'',
    ''    if stringLen < 0 {'',
    ''        return res, fmt.Errorf("non-nullable field z was serialized as null")'',
    ''    } else if stringLen > 0x7fff {'',
    ''        return res, fmt.Errorf("string field z had invalid length %d", stringLen)'',
    ''    } else {'',
    ''        res.Z = string(data[0:stringLen])'',
    ''        data = data[stringLen:]'',
    ''    }'',
    ''}''], indentLevel = 0, indent = ''    ''\<rparr>\<close>
  by code_simp

text \<open>
  Claim C9. The claim: the type definition of an inline record, its constructor and the
  decode sites all use the one name made of the message name and the capitalized base
  kind. The code at the message \<open>Foo\<close> with the inline field \<open>items\<close> of type
  \<open>[]item\<close>: the type is defined and referenced as \<open>Fooitem\<close>, while the constructor
  is \<open>NewFooItem\<close> and returns \<open>FooItem\<close>.
\<close>

theorem generateFile_inline_record_two_names: \<open>
  generateFile ''pkg'' inline_msg NewCodeBuffer =
  Inr (''Foo.go'', \<lparr>lines = [
    ''package pkg'',
    ''import ('',
    ''    "bytes"'',
    ''    "encoding/binary"'',
    ''    "fmt"'',
    '')'',
    ''type Foo struct {'',
    ''    Items []Fooitem'',
    ''}'',
    ''type Fooitem struct {'',
    ''    A int8'',
    ''}'',
    ''func NewFooItem(data []byte) (FooItem, error) {'',
    ''    var res FooItem'',
    ''    res.A = int8(data[0])'',
    ''    data = data[1:]'',
    ''    return res, nil'',
    ''}'',
    ''func ReadFoo(data []byte, version int) (Foo, error) {'',
    ''    var res Foo'',
    ''    {'',
    ''        arrLen, err := binary.ReadUvarint(bytes.NewReader(data))'',
    ''        if err != nil {'',
    ''            return res, fmt.Errorf("problem reading uvarint: %w", err)'',
    ''        }'',
    ''        arrLen--'',
    ''        for i := uint64(0); i < arrLen; i++ {'',
    ''            {'',
    ''                v, err := NewFooItem(data)'',
    ''                if err != nil {'',
    ''                    return res, fmt.Errorf("problem building FooItem: %w", err)'',
    ''                }'',
    ''                res.Items = append(res.Items, v)'',
    ''            }'',
    ''        }'',
    ''    }'',
    ''    return res, nil'',
    ''}''], indentLevel = 0, indent = ''    ''\<rparr>)\<close>
  by code_simp

end
